theory Spec2Isabelle
  imports Main "HOL-Library.Char_ord" "HOL-Library.List_Lexorder"
begin

section \<open>JSON values and the Python operations the clients apply to them\<close>

text \<open>
  The clients of \<^verbatim>\<open>main.py\<close> handle the values that \<^verbatim>\<open>json.loads\<close> and
  \<^verbatim>\<open>response.json()\<close> return: \<^verbatim>\<open>None\<close>, booleans, integers, strings, lists and
  dictionaries with string keys. A dictionary is an association list in insertion order;
  a Python dictionary holds each key once, which \<open>wf_json\<close> states. Floating-point
  numbers are left out of the model. A character stands for a code point below 256.
\<close>

datatype json =
    JNull
  | JBool bool
  | JInt int
  | JStr string
  | JList "json list"
  | JObj "(string \<times> json) list"

text \<open>The exceptions that the modelled code raises or lets through.\<close>

datatype exn =
    RequestException string
  | GraphQLError json
  | Exception string
  | KeyError string
  | TypeError
  | AttributeError
  | JSONDecodeError
  | ConnectionClosedOK
  | ConnectionClosedError

type_synonym 'a result = "exn + 'a"

definition try_bind :: "'a result \<Rightarrow> ('a \<Rightarrow> 'b result) \<Rightarrow> 'b result" where
  "try_bind r f = (case r of Inl e \<Rightarrow> Inl e | Inr v \<Rightarrow> f v)"

fun wf_json :: "json \<Rightarrow> bool" where
  "wf_json (JObj kvs) = (distinct (map fst kvs) \<and> (\<forall>kv \<in> set kvs. wf_json (snd kv)))"
| "wf_json (JList xs) = (\<forall>x \<in> set xs. wf_json x)"
| "wf_json _ = True"

text \<open>Python truthiness, as used by \<^verbatim>\<open>variables or {}\<close> and \<^verbatim>\<open>if author_data:\<close>.\<close>

fun truthy :: "json \<Rightarrow> bool" where
  "truthy JNull = False"
| "truthy (JBool b) = b"
| "truthy (JInt i) = (i \<noteq> 0)"
| "truthy (JStr s) = (s \<noteq> [])"
| "truthy (JList xs) = (xs \<noteq> [])"
| "truthy (JObj kvs) = (kvs \<noteq> [])"

text \<open>\<^verbatim>\<open>x.get(key, default)\<close>: only a dictionary has the method.\<close>

fun py_get :: "json \<Rightarrow> string \<Rightarrow> json \<Rightarrow> json result" where
  "py_get (JObj kvs) k d = Inr (case map_of kvs k of None \<Rightarrow> d | Some v \<Rightarrow> v)"
| "py_get _ k d = Inl AttributeError"

text \<open>\<^verbatim>\<open>x[key]\<close> with a string key: a missing key raises \<^verbatim>\<open>KeyError\<close>, and a value
  that is not a dictionary raises \<^verbatim>\<open>TypeError\<close>.\<close>

fun py_index :: "json \<Rightarrow> string \<Rightarrow> json result" where
  "py_index (JObj kvs) k = (case map_of kvs k of None \<Rightarrow> Inl (KeyError k) | Some v \<Rightarrow> Inr v)"
| "py_index _ k = Inl TypeError"

fun contains_sub :: "string \<Rightarrow> string \<Rightarrow> bool" where
  "contains_sub sub [] = (sub = [])"
| "contains_sub sub (c # cs) = (take (length sub) (c # cs) = sub \<or> contains_sub sub cs)"

text \<open>\<^verbatim>\<open>key in x\<close> with a string key: key membership for a dictionary, element
  membership for a list, substring test for a string, \<^verbatim>\<open>TypeError\<close> otherwise.\<close>

fun py_in :: "string \<Rightarrow> json \<Rightarrow> bool result" where
  "py_in k (JObj kvs) = Inr (k \<in> set (map fst kvs))"
| "py_in k (JList xs) = Inr (JStr k \<in> set xs)"
| "py_in k (JStr s) = Inr (contains_sub k s)"
| "py_in k _ = Inl TypeError"

text \<open>The elements a \<^verbatim>\<open>for\<close> loop visits: a dictionary yields its keys, a string its
  characters.\<close>

fun py_iter :: "json \<Rightarrow> json list result" where
  "py_iter (JList xs) = Inr xs"
| "py_iter (JObj kvs) = Inr (map (\<lambda>kv. JStr (fst kv)) kvs)"
| "py_iter (JStr s) = Inr (map (\<lambda>c. JStr [c]) s)"
| "py_iter _ = Inl TypeError"

subsection \<open>\<^verbatim>\<open>json.dumps\<close>\<close>

definition digit_char :: "nat \<Rightarrow> char" where
  "digit_char d = ''0123456789'' ! d"

fun nat_str :: "nat \<Rightarrow> string" where
  "nat_str n = (if n < 10 then [digit_char n] else nat_str (n div 10) @ [digit_char (n mod 10)])"

definition int_str :: "int \<Rightarrow> string" where
  "int_str i = (if i < 0 then CHR ''-'' # nat_str (nat (- i)) else nat_str (nat i))"

definition hex_char :: "nat \<Rightarrow> char" where
  "hex_char d = ''0123456789abcdef'' ! d"

text \<open>The encoder's \<^verbatim>\<open>ensure_ascii\<close> escaping of one character: the quote, the backslash
  and the short escapes, \<^verbatim>\<open>\u00XX\<close> for every other character outside the range from the
  space to the tilde.\<close>

definition escape_char :: "char \<Rightarrow> string" where
  "escape_char c =
     (let n = (of_char c :: nat) in
      if n = 34 then [CHR 0x5C, CHR 0x22]
      else if n = 92 then [CHR 0x5C, CHR 0x5C]
      else if n = 8 then [CHR 0x5C, CHR ''b'']
      else if n = 12 then [CHR 0x5C, CHR ''f'']
      else if n = 10 then [CHR 0x5C, CHR ''n'']
      else if n = 13 then [CHR 0x5C, CHR ''r'']
      else if n = 9 then [CHR 0x5C, CHR ''t'']
      else if 32 \<le> n \<and> n \<le> 126 then [c]
      else [CHR 0x5C, CHR ''u'', CHR ''0'', CHR ''0'',
            hex_char (n div 16), hex_char (n mod 16)])"

definition encode_str :: "string \<Rightarrow> string" where
  "encode_str s = CHR 0x22 # concat (map escape_char s) @ [CHR 0x22]"

fun join :: "string \<Rightarrow> string list \<Rightarrow> string" where
  "join sep [] = []"
| "join sep [x] = x"
| "join sep (x # y # ys) = x @ sep @ join sep (y # ys)"

definition dict_items :: "bool \<Rightarrow> (string \<times> json) list \<Rightarrow> (string \<times> json) list" where
  "dict_items sort_keys kvs = (if sort_keys then sort_key fst kvs else kvs)"

lemma set_dict_items: "set (dict_items sk kvs) = set kvs"
  by (simp add: dict_items_def)

lemma size_snd_dict_items:
  "kv \<in> set (dict_items sk kvs) \<Longrightarrow> size (snd kv) < Suc (size_list (size_prod (\<lambda>_. 0) size) kvs)"
proof -
  assume "kv \<in> set (dict_items sk kvs)"
  then have mem: "kv \<in> set kvs"
    by (simp add: set_dict_items)
  have "size (snd kv) \<le> size_prod (\<lambda>_. 0) size kv"
    by (cases kv) simp
  also have "\<dots> \<le> size_list (size_prod (\<lambda>_. 0) size) kvs"
    using mem by (simp add: size_list_estimation')
  finally show ?thesis
    by simp
qed

text \<open>\<^verbatim>\<open>json.dumps(v, sort_keys=sk)\<close> with the default separators.\<close>

function json_dumps :: "bool \<Rightarrow> json \<Rightarrow> string" where
  "json_dumps sk JNull = ''null''"
| "json_dumps sk (JBool b) = (if b then ''true'' else ''false'')"
| "json_dumps sk (JInt i) = int_str i"
| "json_dumps sk (JStr s) = encode_str s"
| "json_dumps sk (JList xs) = ''['' @ join '', '' (map (json_dumps sk) xs) @ '']''"
| "json_dumps sk (JObj kvs) =
     ''{'' @ join '', '' (map (\<lambda>kv. encode_str (fst kv) @ '': '' @ json_dumps sk (snd kv))
                               (dict_items sk kvs)) @ ''}''"
  by pat_completeness auto
termination
proof (relation "measure (\<lambda>(sk, v). size v)", goal_cases)
  case 1
  show ?case by simp
next
  case (2 sk xs x)
  then show ?case by (simp add: size_list_estimation' less_Suc_eq_le)
next
  case (3 sk kvs kv)
  then show ?case using size_snd_dict_items [of kv sk kvs] by simp
qed

section \<open>The request/response transport\<close>

text \<open>
  \<^verbatim>\<open>requests.post\<close> followed by \<^verbatim>\<open>raise_for_status\<close> and \<^verbatim>\<open>response.json()\<close> is the
  outside world. It is a parameter: \<open>post k endpoint headers body\<close> is what the call
  number \<open>k\<close> (counted from 0) returns or raises. The clients thread the number of calls
  made so far, so that a result also tells how often the transport was invoked.
\<close>

type_synonym http = "nat \<Rightarrow> string \<Rightarrow> (string \<times> string) list \<Rightarrow> json \<Rightarrow> json result"

definition always :: "json result \<Rightarrow> http" where
  "always r k url hs body = r"

record SimpleGraphQLClient =
  endpoint :: string
  headers :: "(string \<times> string) list"

definition payload :: "string \<Rightarrow> json \<Rightarrow> json" where
  "payload query variables =
     JObj ((''query'', JStr query) # (if truthy variables then [(''variables'', variables)] else []))"

definition SimpleGraphQLClient_execute ::
    "http \<Rightarrow> SimpleGraphQLClient \<Rightarrow> string \<Rightarrow> json \<Rightarrow> nat \<Rightarrow> json result \<times> nat" where
  "SimpleGraphQLClient_execute post c query variables n =
     (post n (endpoint c) (headers c) (payload query variables), Suc n)"

section \<open>Retry\<close>

record RobustGraphQLClient =
  client :: SimpleGraphQLClient
  max_retries :: int

definition retry_message :: "int \<Rightarrow> int \<Rightarrow> string" where
  "retry_message attempt m =
     ''Request failed, retrying... ('' @ int_str (attempt + 1) @ ''/'' @ int_str m @ '')''"

text \<open>
  The body of \<^verbatim>\<open>for attempt in range(self.max_retries)\<close>, from \<open>attempt\<close> on. The state
  is the number of transport calls and the lines printed so far. Only a
  \<^verbatim>\<open>RequestException\<close> is caught; leaving the loop raises the generic exception.
\<close>

function retry_loop ::
    "http \<Rightarrow> RobustGraphQLClient \<Rightarrow> string \<Rightarrow> json \<Rightarrow> int \<Rightarrow> nat \<times> string list
       \<Rightarrow> json result \<times> nat \<times> string list" where
  "retry_loop post c query variables attempt (n, out) =
     (if attempt < max_retries c then
        (case SimpleGraphQLClient_execute post (client c) query variables n of
           (Inr result, n') \<Rightarrow>
             (case py_in ''errors'' result of
                Inl e \<Rightarrow> (Inl e, n', out)
              | Inr True \<Rightarrow>
                  (case py_index result ''errors'' of
                     Inl e \<Rightarrow> (Inl e, n', out)
                   | Inr errors \<Rightarrow> (Inl (GraphQLError errors), n', out))
              | Inr False \<Rightarrow> (Inr result, n', out))
         | (Inl (RequestException cause), n') \<Rightarrow>
             if attempt = max_retries c - 1 then (Inl (RequestException cause), n', out)
             else retry_loop post c query variables (attempt + 1)
                    (n', out @ [retry_message attempt (max_retries c)])
         | (Inl e, n') \<Rightarrow> (Inl e, n', out))
      else (Inl (Exception ''Max retries exceeded''), n, out))"
  by pat_completeness auto
termination
  by (relation "measure (\<lambda>(post, c, query, variables, attempt, s). nat (max_retries c - attempt))")
     auto

declare retry_loop.simps [simp del]

definition execute_with_retry ::
    "http \<Rightarrow> RobustGraphQLClient \<Rightarrow> string \<Rightarrow> json \<Rightarrow> nat \<times> string list
       \<Rightarrow> json result \<times> nat \<times> string list" where
  "execute_with_retry post c query variables s = retry_loop post c query variables 0 s"

section \<open>Caching\<close>

text \<open>
  \<^verbatim>\<open>json.loads\<close> is a parameter of the model: \<open>loads s\<close> is the value parsed from
  \<open>s\<close>, or the exception raised.
\<close>

type_synonym loads = "string \<Rightarrow> json result"

text \<open>
  \<^verbatim>\<open>functools.lru_cache(maxsize)\<close> around a function \<open>f\<close>, for a positive
  \<open>maxsize\<close>. The cache is a list of entries, the most recently used first. A hit moves
  its entry to the front and does not call \<open>f\<close>. On a miss \<open>f\<close> is called; when it
  raises, nothing is stored; when it returns, the result becomes the first entry and, if
  the cache was full, the last entry (the least recently used) is dropped.
\<close>

definition lru_cache_call ::
    "nat \<Rightarrow> ('k \<Rightarrow> 'w \<Rightarrow> 'v result \<times> 'w) \<Rightarrow> 'k \<Rightarrow> ('k \<times> 'v) list \<times> 'w
       \<Rightarrow> 'v result \<times> ('k \<times> 'v) list \<times> 'w" where
  "lru_cache_call maxsize f key s =
     (case s of (cache, w) \<Rightarrow>
        (case map_of cache key of
           Some v \<Rightarrow> (Inr v, (key, v) # filter (\<lambda>kv. fst kv \<noteq> key) cache, w)
         | None \<Rightarrow>
             (case f key w of
                (Inl e, w') \<Rightarrow> (Inl e, cache, w')
              | (Inr v, w') \<Rightarrow>
                  (Inr v, (key, v) # (if maxsize \<le> length cache then butlast cache else cache), w'))))"

text \<open>An instance of \<^verbatim>\<open>CachedGraphQLClient\<close>. Python compares instances by identity,
  which the field \<open>ident\<close> stands for.\<close>

record CachedGraphQLClient =
  ident :: nat
  client :: SimpleGraphQLClient
  cache_size :: int

text \<open>\<^verbatim>\<open>hashlib.md5(content.encode()).hexdigest()\<close> is the parameter \<open>md5\<close>.\<close>

definition cache_key :: "(string \<Rightarrow> string) \<Rightarrow> string \<Rightarrow> json \<Rightarrow> string" where
  "cache_key md5 query variables =
     (let content = query @ json_dumps True (if truthy variables then variables else JObj [])
      in md5 content)"

text \<open>The body of \<^verbatim>\<open>_execute_cached\<close>, under the decorator.\<close>

definition execute_cached ::
    "loads \<Rightarrow> http \<Rightarrow> CachedGraphQLClient \<Rightarrow> string \<Rightarrow> string \<Rightarrow> nat \<Rightarrow> string result \<times> nat" where
  "execute_cached loads post self query variables_json n =
     (case (if variables_json \<noteq> [] then loads variables_json else Inr JNull) of
        Inl e \<Rightarrow> (Inl e, n)
      | Inr variables \<Rightarrow>
          (case SimpleGraphQLClient_execute post (client self) query variables n of
             (Inl e, n') \<Rightarrow> (Inl e, n')
           | (Inr result, n') \<Rightarrow> (Inr (json_dumps False result), n')))"

text \<open>The decorator is applied once, in the class body, with the literal size 128: its
  cache belongs to the class, and the instance is part of the key.\<close>

type_synonym lru = "((CachedGraphQLClient \<times> string \<times> string) \<times> string) list"

definition lru_execute_cached ::
    "loads \<Rightarrow> http \<Rightarrow> CachedGraphQLClient \<Rightarrow> string \<Rightarrow> string \<Rightarrow> lru \<times> nat
       \<Rightarrow> string result \<times> lru \<times> nat" where
  "lru_execute_cached loads post self query variables_json s =
     lru_cache_call 128 (\<lambda>(self, query, variables_json). execute_cached loads post self query variables_json)
       (self, query, variables_json) s"

definition CachedGraphQLClient_execute ::
    "loads \<Rightarrow> http \<Rightarrow> CachedGraphQLClient \<Rightarrow> string \<Rightarrow> json \<Rightarrow> bool \<Rightarrow> lru \<times> nat
       \<Rightarrow> json result \<times> lru \<times> nat" where
  "CachedGraphQLClient_execute loads post self query variables use_cache s =
     (case s of (cache, n) \<Rightarrow>
        if \<not> use_cache then
          (case SimpleGraphQLClient_execute post (client self) query variables n of
             (r, n') \<Rightarrow> (r, cache, n'))
        else
          (let variables_json = json_dumps True (if truthy variables then variables else JObj [])
           in case lru_execute_cached loads post self query variables_json (cache, n) of
                (Inl e, s') \<Rightarrow> (Inl e, s')
              | (Inr result_json, s') \<Rightarrow> (loads result_json, s')))"

section \<open>Typed entities\<close>

text \<open>The dataclasses. Their fields hold what the response holds: a dataclass does not
  check the annotated types.\<close>

datatype Author =
  Author (author_id: json) (author_name: json) (birth_year: json) (books: "Book list option")
and Book =
  Book (book_id: json) (title: json) (genre: json) (published_year: json) (author: "Author option")

record TypedGraphQLClient =
  client :: SimpleGraphQLClient

definition GetAllBooks :: string where
  "GetAllBooks = ''\<newline>        query GetAllBooks {\<newline>            books {\<newline>                id\<newline>                title\<newline>                genre\<newline>                publishedYear\<newline>                author {\<newline>                    id\<newline>                    name\<newline>                    birthYear\<newline>                }\<newline>            }\<newline>        }\<newline>        ''"

text \<open>\<^verbatim>\<open>author = None\<close>, then \<^verbatim>\<open>if author_data: author = Author(...)\<close>.\<close>

definition make_author :: "json \<Rightarrow> Author option result" where
  "make_author author_data =
     (if truthy author_data then
        try_bind (py_index author_data ''id'') (\<lambda>i.
        try_bind (py_index author_data ''name'') (\<lambda>nm.
        try_bind (py_index author_data ''birthYear'') (\<lambda>b.
        Inr (Some (Author i nm b None)))))
      else Inr None)"

definition make_book :: "json \<Rightarrow> Book result" where
  "make_book book_data =
     try_bind (py_get book_data ''author'' JNull) (\<lambda>author_data.
     try_bind (make_author author_data) (\<lambda>author.
     try_bind (py_index book_data ''id'') (\<lambda>i.
     try_bind (py_index book_data ''title'') (\<lambda>t.
     try_bind (py_index book_data ''genre'') (\<lambda>g.
     try_bind (py_index book_data ''publishedYear'') (\<lambda>p.
     Inr (Book i t g p author)))))))"

text \<open>The loop over \<^verbatim>\<open>books_data\<close>; \<open>acc\<close> is the list \<^verbatim>\<open>books\<close> built so far.\<close>

fun books_loop :: "json list \<Rightarrow> Book list \<Rightarrow> Book list result" where
  "books_loop [] acc = Inr acc"
| "books_loop (book_data # rest) acc =
     (case make_book book_data of
        Inl e \<Rightarrow> Inl e
      | Inr book \<Rightarrow> books_loop rest (acc @ [book]))"

definition get_all_books :: "http \<Rightarrow> TypedGraphQLClient \<Rightarrow> nat \<Rightarrow> Book list result \<times> nat" where
  "get_all_books post self n =
     (case SimpleGraphQLClient_execute post (client self) GetAllBooks JNull n of
        (Inl e, n') \<Rightarrow> (Inl e, n')
      | (Inr result, n') \<Rightarrow>
          (try_bind (py_get result ''data'' (JObj [])) (\<lambda>data.
           try_bind (py_get data ''books'' (JList [])) (\<lambda>books_data.
           try_bind (py_iter books_data) (\<lambda>items.
           books_loop items []))), n'))"

section \<open>Subscriptions\<close>

text \<open>
  The WebSocket is a parameter: \<open>connect url\<close> is the exception of a failed handshake,
  or the text frames that the server sends, in order, and what it does after the last one:
  it keeps the connection open and silent, closes it normally, or the connection breaks.
  The generator \<^verbatim>\<open>subscribe\<close> is run as far as it goes: the result holds the frames
  sent, the values yielded in order, and how the generator ends. \<open>Waiting\<close> means that it
  never ends: it stays suspended in the wait for the next frame.
\<close>

datatype closing = StaysOpen | ClosesOK | ClosesError

datatype ending = Finished | Raised exn | Waiting

record GraphQLSubscriptionClient =
  ws_endpoint :: string

text \<open>The loop \<^verbatim>\<open>async for message in websocket\<close>: a normal close ends the iteration,
  a broken connection raises.\<close>

fun listen :: "loads \<Rightarrow> closing \<Rightarrow> string list \<Rightarrow> json list \<times> ending" where
  "listen loads cl [] =
     ([], case cl of StaysOpen \<Rightarrow> Waiting | ClosesOK \<Rightarrow> Finished
                   | ClosesError \<Rightarrow> Raised ConnectionClosedError)"
| "listen loads cl (message # rest) =
     (case loads message of
        Inl e \<Rightarrow> ([], Raised e)
      | Inr data \<Rightarrow>
          (case py_get data ''type'' JNull of
             Inl e \<Rightarrow> ([], Raised e)
           | Inr t \<Rightarrow>
               if t = JStr ''data'' then
                 (case try_bind (py_get data ''payload'' (JObj [])) (\<lambda>p. py_get p ''data'' (JObj [])) of
                    Inl e \<Rightarrow> ([], Raised e)
                  | Inr y \<Rightarrow> (case listen loads cl rest of (ys, r) \<Rightarrow> (y # ys, r)))
               else listen loads cl rest))"

definition connection_init :: string where
  "connection_init = json_dumps False (JObj [(''type'', JStr ''connection_init'')])"

definition start :: "string \<Rightarrow> json \<Rightarrow> string" where
  "start subscription_query variables =
     json_dumps False (JObj [(''id'', JStr ''1''), (''type'', JStr ''start''),
       (''payload'', JObj [(''query'', JStr subscription_query),
                           (''variables'', if truthy variables then variables else JObj [])])])"

text \<open>\<^verbatim>\<open>response = await websocket.recv()\<close> takes the first frame, whatever it is, and
  raises when the connection closes before one arrives.\<close>

definition subscribe ::
    "loads \<Rightarrow> (string \<Rightarrow> (string list \<times> closing) result) \<Rightarrow> GraphQLSubscriptionClient
       \<Rightarrow> string \<Rightarrow> json \<Rightarrow> string list \<times> json list \<times> ending" where
  "subscribe loads connect self subscription_query variables =
     (case connect (ws_endpoint self) of
        Inl e \<Rightarrow> ([], [], Raised e)
      | Inr ([], cl) \<Rightarrow>
          ([connection_init], [],
           case cl of StaysOpen \<Rightarrow> Waiting | ClosesOK \<Rightarrow> Raised ConnectionClosedOK
                    | ClosesError \<Rightarrow> Raised ConnectionClosedError)
      | Inr (response # messages, cl) \<Rightarrow>
          (case listen loads cl messages of
             (ys, r) \<Rightarrow> ([connection_init, start subscription_query variables], ys, r)))"

section \<open>Mappings that differ only in the order of their keys\<close>

text \<open>
  Two values are the same up to key order when they are equal except for the order in which
  dictionaries, at any depth, list their keys: dictionaries have the same keys with values
  that are the same up to key order, lists agree position by position, and scalars are equal.
\<close>

function same_up_to_key_order :: "json \<Rightarrow> json \<Rightarrow> bool" where
  "same_up_to_key_order (JObj xs) (JObj ys) =
     (set (map fst xs) = set (map fst ys) \<and>
      (\<forall>kv \<in> set xs. \<forall>kw \<in> set ys. fst kv = fst kw \<longrightarrow> same_up_to_key_order (snd kv) (snd kw)))"
| "same_up_to_key_order (JList xs) (JList ys) =
     (length xs = length ys \<and> (\<forall>p \<in> set (zip xs ys). same_up_to_key_order (fst p) (snd p)))"
| "same_up_to_key_order JNull b = (b = JNull)"
| "same_up_to_key_order (JBool x) b = (b = JBool x)"
| "same_up_to_key_order (JInt i) b = (b = JInt i)"
| "same_up_to_key_order (JStr s) b = (b = JStr s)"
| "same_up_to_key_order (JObj xs) JNull = False"
| "same_up_to_key_order (JObj xs) (JBool b) = False"
| "same_up_to_key_order (JObj xs) (JInt i) = False"
| "same_up_to_key_order (JObj xs) (JStr s) = False"
| "same_up_to_key_order (JObj xs) (JList ys) = False"
| "same_up_to_key_order (JList xs) JNull = False"
| "same_up_to_key_order (JList xs) (JBool b) = False"
| "same_up_to_key_order (JList xs) (JInt i) = False"
| "same_up_to_key_order (JList xs) (JStr s) = False"
| "same_up_to_key_order (JList xs) (JObj ys) = False"
  by pat_completeness auto
termination
proof (relation "measure (\<lambda>(a, b). size a)", goal_cases)
  case 1
  show ?case by simp
next
  case (2 xs ys kv kw)
  then show ?case using size_snd_dict_items [of kv False xs] by (simp add: dict_items_def)
next
  case (3 xs ys p)
  then have "fst p \<in> set xs"
    by (metis prod.collapse set_zip_leftD)
  then show ?case by (simp add: size_list_estimation' less_Suc_eq_le case_prod_beta)
qed

section \<open>Inputs for the closed examples\<close>

definition localhost :: SimpleGraphQLClient where
  "localhost = \<lparr>endpoint = ''http://localhost:8000/graphql'', headers = []\<rparr>"

definition robust :: "int \<Rightarrow> RobustGraphQLClient" where
  "robust m = \<lparr>RobustGraphQLClient.client = localhost, max_retries = m\<rparr>"

text \<open>A transport that fails on every call, with the number of the call in the cause.\<close>

definition refused :: http where
  "refused k url hs body = Inl (RequestException (''connection refused #'' @ nat_str k))"

definition boom :: json where
  "boom = JObj [(''message'', JStr ''boom''), (''path'', JList [JStr ''books'', JInt 0])]"

definition errors_only :: json where
  "errors_only = JObj [(''errors'', JList [boom])]"

definition partial_a :: json where
  "partial_a = JObj [(''data'', JObj [(''books'', JList [JNull])]), (''errors'', JList [boom])]"

definition partial_b :: json where
  "partial_b = JObj [(''data'', JObj [(''books'', JList [])]), (''errors'', JList [boom])]"

definition empty_errors :: json where
  "empty_errors = JObj [(''data'', JObj [(''books'', JList [])]), (''errors'', JList [])]"

definition data_only :: json where
  "data_only = JObj [(''data'', JObj [(''books'', JList [])])]"

text \<open>A parser for a known, finite set of documents: it returns the document whose
  \<^verbatim>\<open>json.dumps\<close> text it is given, and fails on any other text.\<close>

definition loads_of :: "json list \<Rightarrow> loads" where
  "loads_of docs s =
     (case find (\<lambda>v. json_dumps False v = s) docs of
        Some v \<Rightarrow> Inr v
      | None \<Rightarrow> Inl JSONDecodeError)"

text \<open>The server's messages of the subscription protocol.\<close>

definition connection_ack :: json where
  "connection_ack = JObj [(''type'', JStr ''connection_ack'')]"

definition data_message :: "json \<Rightarrow> json" where
  "data_message d = JObj [(''id'', JStr ''1''), (''type'', JStr ''data''), (''payload'', JObj [(''data'', d)])]"

definition complete_message :: json where
  "complete_message = JObj [(''id'', JStr ''1''), (''type'', JStr ''complete'')]"

definition book_added :: "int \<Rightarrow> json" where
  "book_added i = JObj [(''bookAdded'', JObj [(''id'', JInt i)])]"

definition server :: "string list \<Rightarrow> closing \<Rightarrow> string \<Rightarrow> (string list \<times> closing) result" where
  "server frames cl url = Inr (frames, cl)"

definition ws_client :: GraphQLSubscriptionClient where
  "ws_client = \<lparr>ws_endpoint = ''ws://localhost:8000/graphql''\<rparr>"

definition connection_error :: json where
  "connection_error = JObj [(''type'', JStr ''connection_error''), (''payload'', JObj [])]"

definition protocol_docs :: "json list" where
  "protocol_docs = [connection_ack, connection_error, data_message (book_added 1),
     data_message (book_added 2), complete_message, data_message (book_added 3)]"

definition frame :: "json \<Rightarrow> string" where
  "frame v = json_dumps False v"

definition typed :: TypedGraphQLClient where
  "typed = \<lparr>TypedGraphQLClient.client = localhost\<rparr>"

definition book_1984 :: "(string \<times> json) list" where
  "book_1984 = [(''id'', JInt 1), (''title'', JStr ''1984'')]"

definition books_envelope :: "(string \<times> json) list \<Rightarrow> json" where
  "books_envelope book = JObj [(''data'', JObj [(''books'', JList [JObj book])])]"

definition vars_ab :: json where
  "vars_ab = JObj [(''a'', JInt 1), (''b'', JInt 2)]"

definition vars_ba :: json where
  "vars_ba = JObj [(''b'', JInt 2), (''a'', JInt 1)]"

definition cached :: "int \<Rightarrow> CachedGraphQLClient" where
  "cached n = \<lparr>ident = 0, CachedGraphQLClient.client = localhost, cache_size = n\<rparr>"

definition cache_docs :: "json list" where
  "cache_docs = [JObj [], vars_ab, data_only]"

text \<open>A run of cached calls of \<^verbatim>\<open>execute\<close>, one query after the other, without variables.\<close>

fun execute_each ::
    "loads \<Rightarrow> http \<Rightarrow> CachedGraphQLClient \<Rightarrow> string list \<Rightarrow> lru \<times> nat
       \<Rightarrow> json result list \<times> lru \<times> nat" where
  "execute_each loads post self [] s = ([], s)"
| "execute_each loads post self (q # qs) s =
     (case CachedGraphQLClient_execute loads post self q JNull True s of
        (r, s') \<Rightarrow> (case execute_each loads post self qs s' of (rs, s'') \<Rightarrow> (r # rs, s'')))"

section \<open>Retry: properties\<close>

lemma retry_loop_last:
  assumes "attempt < max_retries c"
    and "post n (endpoint (RobustGraphQLClient.client c)) (headers (RobustGraphQLClient.client c))
           (payload query variables) = Inl (RequestException cause)"
    and "attempt = max_retries c - 1"
  shows "retry_loop post c query variables attempt (n, out) = (Inl (RequestException cause), Suc n, out)"
  using assms by (simp add: retry_loop.simps SimpleGraphQLClient_execute_def)

lemma retry_loop_again:
  assumes "attempt < max_retries c"
    and "post n (endpoint (RobustGraphQLClient.client c)) (headers (RobustGraphQLClient.client c))
           (payload query variables) = Inl (RequestException cause)"
    and "attempt \<noteq> max_retries c - 1"
  shows "retry_loop post c query variables attempt (n, out) =
         retry_loop post c query variables (attempt + 1)
           (Suc n, out @ [retry_message attempt (max_retries c)])"
  using assms by (simp add: retry_loop.simps SimpleGraphQLClient_execute_def)

lemma retry_loop_errors:
  assumes "attempt < max_retries c"
    and "post n (endpoint (RobustGraphQLClient.client c)) (headers (RobustGraphQLClient.client c))
           (payload query variables) = Inr (JObj env)"
    and "map_of env ''errors'' = Some errs"
  shows "retry_loop post c query variables attempt (n, out) = (Inl (GraphQLError errs), Suc n, out)"
proof -
  from assms(3) have "''errors'' \<in> fst ` set env"
    by (metis domI dom_map_of_conv_image_fst)
  with assms show ?thesis
    by (simp add: retry_loop.simps SimpleGraphQLClient_execute_def)
qed

lemma retry_loop_exhausted:
  "\<not> attempt < max_retries c \<Longrightarrow>
   retry_loop post c query variables attempt (n, out) =
   (Inl (Exception ''Max retries exceeded''), n, out)"
  by (simp add: retry_loop.simps)

lemma retry_loop_returns:
  "retry_loop post c query variables attempt s = (Inr r, s') \<Longrightarrow> py_in ''errors'' r = Inr False"
proof (induction post c query variables attempt s rule: retry_loop.induct)
  case (1 post c query variables attempt n out)
  let ?resp = "post n (endpoint (RobustGraphQLClient.client c))
                 (headers (RobustGraphQLClient.client c)) (payload query variables)"
  show ?case
  proof (cases "attempt < max_retries c")
    case False
    with "1.prems" show ?thesis
      by (simp add: retry_loop_exhausted)
  next
    case True
    show ?thesis
    proof (cases ?resp)
      case (Inr result)
      with True "1.prems" show ?thesis
        by (auto simp: retry_loop.simps SimpleGraphQLClient_execute_def
                 split: sum.splits bool.splits)
    next
      case (Inl e)
      show ?thesis
      proof (cases "\<exists>cause. e = RequestException cause")
        case False
        with True Inl "1.prems" show ?thesis
          by (cases e) (simp_all add: retry_loop.simps SimpleGraphQLClient_execute_def)
      next
        case True
        then obtain cause where e: "e = RequestException cause"
          by blast
        show ?thesis
        proof (cases "attempt = max_retries c - 1")
          case True
          with \<open>attempt < max_retries c\<close> Inl e "1.prems" show ?thesis
            by (simp add: retry_loop_last)
        next
          case False
          have "retry_loop post c query variables (attempt + 1)
                  (Suc n, out @ [retry_message attempt (max_retries c)]) = (Inr r, s')"
            using "1.prems" retry_loop_again [of attempt c post n query variables cause out]
              \<open>attempt < max_retries c\<close> False Inl e
            by simp
          then show ?thesis
            using "1.IH" \<open>attempt < max_retries c\<close> False Inl e
            by (simp add: SimpleGraphQLClient_execute_def)
        qed
      qed
    qed
  qed
qed

text \<open>
  Claim C2. With \<open>max_retries = 3\<close> and a transport that raises a
  \<^verbatim>\<open>RequestException\<close> on every call, \<open>execute_with_retry\<close> calls the transport exactly
  three times (the call counter goes from \<open>n\<close> to \<open>n + 3\<close>), prints the two retry lines
  and raises the exception of the third call, with that call's cause; the generic
  \<^verbatim>\<open>Exception("Max retries exceeded")\<close> is not raised.
\<close>

theorem retry_raises_last_transport_error:
  assumes "max_retries c = 3"
    and "\<And>k. post k (endpoint (RobustGraphQLClient.client c)) (headers (RobustGraphQLClient.client c))
               (payload query variables) = Inl (RequestException (cause k))"
  shows "execute_with_retry post c query variables (n, out) =
         (Inl (RequestException (cause (n + 2))), n + 3,
          out @ [retry_message 0 3, retry_message 1 3])"
proof -
  let ?run = "retry_loop post c query variables"
  let ?m1 = "retry_message 0 3" and ?m2 = "retry_message 1 3"
  note fails = assms(2)
  have lt: "0 < max_retries c" "1 < max_retries c" "2 < max_retries c"
    and ne: "0 \<noteq> max_retries c - 1" "1 \<noteq> max_retries c - 1"
    and last: "2 = max_retries c - 1"
    using assms(1) by simp_all
  have "?run 0 (n, out) = ?run (0 + 1) (Suc n, out @ [retry_message 0 (max_retries c)])"
    using retry_loop_again [of 0 c post n query variables "cause n" out] lt(1) fails [of n] ne(1)
    by blast
  also have "\<dots> = ?run 1 (Suc n, out @ [?m1])"
    using assms(1) by simp
  also have "\<dots> = ?run (1 + 1) (Suc (Suc n), (out @ [?m1]) @ [retry_message 1 (max_retries c)])"
    using retry_loop_again [of 1 c post "Suc n" query variables "cause (Suc n)" "out @ [?m1]"]
      lt(2) fails [of "Suc n"] ne(2)
    by blast
  also have "\<dots> = ?run 2 (Suc (Suc n), out @ [?m1, ?m2])"
    using assms(1) by simp
  also have "\<dots> = (Inl (RequestException (cause (Suc (Suc n)))), Suc (Suc (Suc n)), out @ [?m1, ?m2])"
    using retry_loop_last [of 2 c post "Suc (Suc n)" query variables "cause (Suc (Suc n))"
        "out @ [?m1, ?m2]"] lt(3) fails [of "Suc (Suc n)"] last
    by blast
  finally have "?run 0 (n, out) =
      (Inl (RequestException (cause (Suc (Suc n)))), Suc (Suc (Suc n)), out @ [?m1, ?m2])" .
  moreover have "Suc (Suc n) = n + 2" "Suc (Suc (Suc n)) = n + 3"
    by simp_all
  ultimately show ?thesis
    by (simp only: execute_with_retry_def)
qed

theorem retry_raises_last_transport_error_witness:
  "max_retries \<lparr>RobustGraphQLClient.client = localhost, max_retries = 3\<rparr> = 3 \<and>
   (\<forall>k. refused k (endpoint localhost) (headers localhost) (payload ''{ books { id } }'' JNull) =
        Inl (RequestException (''connection refused #'' @ nat_str k))) \<and>
   execute_with_retry refused \<lparr>RobustGraphQLClient.client = localhost, max_retries = 3\<rparr>
     ''{ books { id } }'' JNull (0, []) =
   (Inl (RequestException ''connection refused #2''), 3,
    [''Request failed, retrying... (1/3)'', ''Request failed, retrying... (2/3)''])"
  using retry_raises_last_transport_error
    [of "\<lparr>RobustGraphQLClient.client = localhost, max_retries = 3\<rparr>" refused
        "''{ books { id } }''" JNull "\<lambda>k. ''connection refused #'' @ nat_str k" 0 "[]"]
  by (simp add: refused_def retry_message_def int_str_def digit_char_def)

text \<open>
  Claim C3 says: for every \<open>max_retries\<close>, an envelope with a non-empty \<^verbatim>\<open>errors\<close> field
  means exactly one transport call and a \<^verbatim>\<open>GraphQLError\<close>. With \<open>max_retries = 0\<close> the
  loop body never runs: no call is made and the generic exception is raised.
\<close>

theorem semantic_error_zero_attempts_counterexample:
  "execute_with_retry (always (Inr errors_only)) (robust 0) ''{ books { id } }'' JNull (0, []) =
   (Inl (Exception ''Max retries exceeded''), 0, [])"
  by (simp add: execute_with_retry_def retry_loop.simps robust_def)

text \<open>
  Claim C3, amended. For every \<open>max_retries\<close> of at least 1: when the transport returns an
  envelope whose \<^verbatim>\<open>errors\<close> field is a non-empty list, \<open>execute_with_retry\<close> calls the
  transport exactly once and raises a \<^verbatim>\<open>GraphQLError\<close> with that list, without a retry.
\<close>

theorem semantic_error_not_retried:
  assumes "0 < max_retries c"
    and "post n (endpoint (RobustGraphQLClient.client c)) (headers (RobustGraphQLClient.client c))
           (payload query variables) = Inr (JObj env)"
    and "map_of env ''errors'' = Some (JList es)"
    and "es \<noteq> []"
  shows "execute_with_retry post c query variables (n, out) =
         (Inl (GraphQLError (JList es)), Suc n, out)"
  unfolding execute_with_retry_def
  using retry_loop_errors [of 0 c post n query variables env "JList es" out] assms(1-3)
  by blast

theorem semantic_error_not_retried_witness:
  "0 < max_retries (robust 5) \<and>
   always (Inr errors_only) 0 (endpoint (RobustGraphQLClient.client (robust 5)))
     (headers (RobustGraphQLClient.client (robust 5))) (payload ''{ books { id } }'' JNull) =
     Inr (JObj [(''errors'', JList [boom])]) \<and>
   map_of [(''errors'', JList [boom])] ''errors'' = Some (JList [boom]) \<and>
   [boom] \<noteq> [] \<and>
   execute_with_retry (always (Inr errors_only)) (robust 5) ''{ books { id } }'' JNull (0, []) =
   (Inl (GraphQLError (JList [boom])), 1, [])"
  using semantic_error_not_retried
    [of "robust 5" "always (Inr errors_only)" 0 "''{ books { id } }''" JNull
        "[(''errors'', JList [boom])]" "[boom]" "[]"]
  by (simp add: robust_def always_def errors_only_def)

text \<open>
  Claim C8 says that the error raised carries the partial data. Two envelopes with the same
  errors and different data raise the same exception: the data cannot be read from it.
\<close>

theorem graphql_error_drops_partial_data_counterexample:
  "execute_with_retry (always (Inr partial_a)) (robust 3) ''{ books { id } }'' JNull (0, []) =
     (Inl (GraphQLError (JList [boom])), 1, []) \<and>
   execute_with_retry (always (Inr partial_b)) (robust 3) ''{ books { id } }'' JNull (0, []) =
     (Inl (GraphQLError (JList [boom])), 1, []) \<and>
   py_get partial_a ''data'' JNull \<noteq> py_get partial_b ''data'' JNull"
  by (simp add: execute_with_retry_def retry_loop.simps robust_def always_def partial_a_def
      partial_b_def SimpleGraphQLClient_execute_def)

text \<open>
  Claim C8, amended. For an envelope with both \<^verbatim>\<open>data\<close> and a non-empty \<^verbatim>\<open>errors\<close> list,
  the \<^verbatim>\<open>GraphQLError\<close> raised carries the whole list of errors, in order, and nothing
  else: any other envelope with the same errors gives the same outcome, whatever its data.
\<close>

theorem graphql_error_carries_errors_only:
  assumes "0 < max_retries c"
    and "post n (endpoint (RobustGraphQLClient.client c)) (headers (RobustGraphQLClient.client c))
           (payload query variables) = Inr (JObj env)"
    and "map_of env ''data'' = Some d"
    and "map_of env ''errors'' = Some (JList es)"
    and "es \<noteq> []"
    and "post' n (endpoint (RobustGraphQLClient.client c)) (headers (RobustGraphQLClient.client c))
           (payload query variables) = Inr (JObj env')"
    and "map_of env' ''errors'' = Some (JList es)"
  shows "execute_with_retry post c query variables (n, out) =
           (Inl (GraphQLError (JList es)), Suc n, out) \<and>
         execute_with_retry post' c query variables (n, out) =
           execute_with_retry post c query variables (n, out)"
  unfolding execute_with_retry_def
  using retry_loop_errors [of 0 c post n query variables env "JList es" out]
    retry_loop_errors [of 0 c post' n query variables env' "JList es" out] assms(1,2,4,6,7)
  by simp

theorem graphql_error_carries_errors_only_witness:
  "0 < max_retries (robust 3) \<and>
   always (Inr partial_a) 0 (endpoint (RobustGraphQLClient.client (robust 3)))
     (headers (RobustGraphQLClient.client (robust 3))) (payload ''{ books { id } }'' JNull) =
     Inr (JObj [(''data'', JObj [(''books'', JList [JNull])]), (''errors'', JList [boom])]) \<and>
   map_of [(''data'', JObj [(''books'', JList [JNull])]), (''errors'', JList [boom])] ''data'' =
     Some (JObj [(''books'', JList [JNull])]) \<and>
   map_of [(''data'', JObj [(''books'', JList [JNull])]), (''errors'', JList [boom])] ''errors'' =
     Some (JList [boom]) \<and>
   [boom] \<noteq> [] \<and>
   always (Inr partial_b) 0 (endpoint (RobustGraphQLClient.client (robust 3)))
     (headers (RobustGraphQLClient.client (robust 3))) (payload ''{ books { id } }'' JNull) =
     Inr (JObj [(''data'', JObj [(''books'', JList [])]), (''errors'', JList [boom])]) \<and>
   map_of [(''data'', JObj [(''books'', JList [])]), (''errors'', JList [boom])] ''errors'' =
     Some (JList [boom]) \<and>
   execute_with_retry (always (Inr partial_a)) (robust 3) ''{ books { id } }'' JNull (0, []) =
     (Inl (GraphQLError (JList [boom])), 1, []) \<and>
   execute_with_retry (always (Inr partial_b)) (robust 3) ''{ books { id } }'' JNull (0, []) =
     execute_with_retry (always (Inr partial_a)) (robust 3) ''{ books { id } }'' JNull (0, [])"
  using graphql_error_carries_errors_only
    [of "robust 3" "always (Inr partial_a)" 0 "''{ books { id } }''" JNull
        "[(''data'', JObj [(''books'', JList [JNull])]), (''errors'', JList [boom])]"
        "JObj [(''books'', JList [JNull])]" "[boom]" "always (Inr partial_b)"
        "[(''data'', JObj [(''books'', JList [])]), (''errors'', JList [boom])]" "[]"]
  by (simp add: robust_def always_def partial_a_def partial_b_def)

text \<open>
  Claim C10 says that an envelope in which the key \<^verbatim>\<open>errors\<close> is present always makes
  \<open>execute_with_retry\<close> raise a \<^verbatim>\<open>GraphQLError\<close> on the first attempt. With
  \<open>max_retries = 0\<close> there is no first attempt: against an endpoint that answers with such an
  envelope, no call is made and the generic exception is raised instead.
\<close>

theorem errors_key_zero_attempts_counterexample:
  "execute_with_retry (always (Inr empty_errors)) (robust 0) ''{ books { id } }'' JNull (0, []) =
   (Inl (Exception ''Max retries exceeded''), 0, [])"
  by (simp add: execute_with_retry_def retry_loop_exhausted robust_def)

text \<open>
  Claim C10, amended. For every \<open>max_retries\<close> of at least 1: when the first attempt receives
  an envelope in which the key \<^verbatim>\<open>errors\<close> is present, whatever it maps to and whatever else
  the envelope holds, \<open>execute_with_retry\<close> raises a \<^verbatim>\<open>GraphQLError\<close> with that value after
  this one call. And for every \<open>max_retries\<close>, an envelope that \<open>execute_with_retry\<close> returns
  has no key \<^verbatim>\<open>errors\<close>.
\<close>

theorem errors_key_always_raises:
  "(0 < max_retries c \<and>
    post n (endpoint (RobustGraphQLClient.client c)) (headers (RobustGraphQLClient.client c))
      (payload query variables) = Inr (JObj env) \<and>
    ''errors'' \<in> fst ` set env \<longrightarrow>
      (\<exists>errors. map_of env ''errors'' = Some errors \<and>
         execute_with_retry post c query variables (n, out) =
         (Inl (GraphQLError errors), Suc n, out))) \<and>
   (execute_with_retry post c query variables (n, out) = (Inr (JObj env), s') \<longrightarrow>
      ''errors'' \<notin> fst ` set env)"
proof (intro conjI impI)
  assume h: "0 < max_retries c \<and>
    post n (endpoint (RobustGraphQLClient.client c)) (headers (RobustGraphQLClient.client c))
      (payload query variables) = Inr (JObj env) \<and> ''errors'' \<in> fst ` set env"
  then obtain errors where e: "map_of env ''errors'' = Some errors"
    by (metis domD dom_map_of_conv_image_fst)
  have "retry_loop post c query variables 0 (n, out) = (Inl (GraphQLError errors), Suc n, out)"
    using retry_loop_errors [of 0 c post n query variables env errors out] h e by blast
  with e show "\<exists>errors. map_of env ''errors'' = Some errors \<and>
         execute_with_retry post c query variables (n, out) =
         (Inl (GraphQLError errors), Suc n, out)"
    by (simp add: execute_with_retry_def)
next
  assume "execute_with_retry post c query variables (n, out) = (Inr (JObj env), s')"
  then have "py_in ''errors'' (JObj env) = Inr False"
    using retry_loop_returns [of post c query variables 0 "(n, out)" "JObj env" s']
    by (simp add: execute_with_retry_def)
  then show "''errors'' \<notin> fst ` set env"
    by simp
qed

theorem errors_key_always_raises_witness:
  "(0 < max_retries (robust 3) \<and>
    always (Inr empty_errors) 0 (endpoint (RobustGraphQLClient.client (robust 3)))
      (headers (RobustGraphQLClient.client (robust 3))) (payload ''{ books { id } }'' JNull) =
      Inr (JObj [(''data'', JObj [(''books'', JList [])]), (''errors'', JList [])]) \<and>
    ''errors'' \<in> fst ` set [(''data'', JObj [(''books'', JList [])]), (''errors'', JList [])] \<and>
    execute_with_retry (always (Inr empty_errors)) (robust 3) ''{ books { id } }'' JNull (0, []) =
      (Inl (GraphQLError (JList [])), 1, [])) \<and>
   (execute_with_retry (always (Inr data_only)) (robust 3) ''{ books { id } }'' JNull (0, []) =
      (Inr (JObj [(''data'', JObj [(''books'', JList [])])]), 1, []) \<and>
    ''errors'' \<notin> fst ` set [(''data'', JObj [(''books'', JList [])])])"
proof -
  have ret: "execute_with_retry (always (Inr data_only)) (robust 3) ''{ books { id } }'' JNull (0, []) =
      (Inr (JObj [(''data'', JObj [(''books'', JList [])])]), 1, [])"
    by (simp add: execute_with_retry_def retry_loop.simps robust_def always_def data_only_def
        SimpleGraphQLClient_execute_def)
  show ?thesis
    using errors_key_always_raises
      [of "robust 3" "always (Inr empty_errors)" 0 "''{ books { id } }''" JNull
          "[(''data'', JObj [(''books'', JList [])]), (''errors'', JList [])]" "[]"]
      errors_key_always_raises
      [of "robust 3" "always (Inr data_only)" 0 "''{ books { id } }''" JNull
          "[(''data'', JObj [(''books'', JList [])])]" "[]" "(1, [])"]
      ret
    by (simp add: robust_def always_def empty_errors_def)
qed

section \<open>Subscriptions: properties\<close>

lemma listen_data:
  "loads m = Inr (data_message p) \<Longrightarrow>
   listen loads cl (m # rest) = (p # fst (listen loads cl rest), snd (listen loads cl rest))"
  by (simp add: data_message_def try_bind_def split: prod.split)

lemma listen_complete:
  "loads m = Inr complete_message \<Longrightarrow> listen loads cl (m # rest) = listen loads cl rest"
  by (simp add: complete_message_def)

lemma loads_of_frame:
  "loads_of protocol_docs (frame connection_ack) = Inr connection_ack"
  "loads_of protocol_docs (frame connection_error) = Inr connection_error"
  "loads_of protocol_docs (frame (data_message (book_added 1))) = Inr (data_message (book_added 1))"
  "loads_of protocol_docs (frame (data_message (book_added 2))) = Inr (data_message (book_added 2))"
  "loads_of protocol_docs (frame (data_message (book_added 3))) = Inr (data_message (book_added 3))"
  "loads_of protocol_docs (frame complete_message) = Inr complete_message"
  by (simp_all add: loads_of_def protocol_docs_def frame_def connection_ack_def connection_error_def
      data_message_def complete_message_def book_added_def encode_str_def escape_char_def
      int_str_def digit_char_def dict_items_def)

text \<open>
  Claim C1 says that the stream ends at \<^verbatim>\<open>complete\<close> and yields nothing after it. When the
  server sends data(1), data(2), complete and keeps the connection open, the generator
  does not end; and a data message sent after \<^verbatim>\<open>complete\<close> is yielded.
\<close>

theorem complete_ignored_counterexample:
  "subscribe (loads_of protocol_docs)
     (server [frame connection_ack, frame (data_message (book_added 1)),
              frame (data_message (book_added 2)), frame complete_message] StaysOpen)
     ws_client ''subscription { bookAdded { id } }'' JNull =
   ([connection_init, start ''subscription { bookAdded { id } }'' JNull],
    [book_added 1, book_added 2], Waiting) \<and>
   subscribe (loads_of protocol_docs)
     (server [frame connection_ack, frame (data_message (book_added 1)),
              frame (data_message (book_added 2)), frame complete_message,
              frame (data_message (book_added 3))] ClosesOK)
     ws_client ''subscription { bookAdded { id } }'' JNull =
   ([connection_init, start ''subscription { bookAdded { id } }'' JNull],
    [book_added 1, book_added 2, book_added 3], Finished)"
  by (simp add: subscribe_def server_def listen_data listen_complete loads_of_frame
      del: listen.simps(2))

text \<open>
  Claim C1, amended. When the server sends data(1), data(2), complete after the first frame,
  the stream yields payload-1, then payload-2. The \<^verbatim>\<open>complete\<close> message is skipped and does
  not end the stream: the frames that follow it are handled by the same loop, and what they
  yield comes after payload-2. When no frame follows, these two payloads are all that is
  yielded, and the generator finishes if the connection then closes normally, raises if the
  connection breaks, and stays waiting if the server keeps the connection open.
\<close>

theorem data_yielded_in_order_complete_ignored:
  assumes "connect (ws_endpoint self) = Inr (response # m1 # m2 # m3 # rest, cl)"
    and "loads m1 = Inr (data_message p1)"
    and "loads m2 = Inr (data_message p2)"
    and "loads m3 = Inr complete_message"
  shows "subscribe loads connect self subscription_query variables =
           ([connection_init, start subscription_query variables],
            p1 # p2 # fst (listen loads cl rest), snd (listen loads cl rest)) \<and>
         (rest = [] \<longrightarrow>
            subscribe loads connect self subscription_query variables =
              ([connection_init, start subscription_query variables], [p1, p2],
               case cl of StaysOpen \<Rightarrow> Waiting | ClosesOK \<Rightarrow> Finished
                        | ClosesError \<Rightarrow> Raised ConnectionClosedError))"
  using assms by (simp add: subscribe_def listen_data listen_complete del: listen.simps(2))

theorem data_yielded_in_order_complete_ignored_witness:
  "server [frame connection_ack, frame (data_message (book_added 1)),
           frame (data_message (book_added 2)), frame complete_message] ClosesOK
     (ws_endpoint ws_client) =
     Inr (frame connection_ack # frame (data_message (book_added 1)) #
          frame (data_message (book_added 2)) # frame complete_message # [], ClosesOK) \<and>
   loads_of protocol_docs (frame (data_message (book_added 1))) = Inr (data_message (book_added 1)) \<and>
   loads_of protocol_docs (frame (data_message (book_added 2))) = Inr (data_message (book_added 2)) \<and>
   loads_of protocol_docs (frame complete_message) = Inr complete_message \<and>
   subscribe (loads_of protocol_docs)
     (server [frame connection_ack, frame (data_message (book_added 1)),
              frame (data_message (book_added 2)), frame complete_message] ClosesOK)
     ws_client ''subscription { bookAdded { id } }'' JNull =
   ([connection_init, start ''subscription { bookAdded { id } }'' JNull],
    [book_added 1, book_added 2], Finished)"
  using data_yielded_in_order_complete_ignored
    [of "server [frame connection_ack, frame (data_message (book_added 1)),
                 frame (data_message (book_added 2)), frame complete_message] ClosesOK"
        ws_client "frame connection_ack" "frame (data_message (book_added 1))"
        "frame (data_message (book_added 2))" "frame complete_message" "[]" ClosesOK
        "loads_of protocol_docs" "book_added 1" "book_added 2"
        "''subscription { bookAdded { id } }''" JNull]
  by (simp add: server_def loads_of_frame listen_data listen_complete del: listen.simps(2))

text \<open>Whatever the first frame is, it is taken and not read: \<^verbatim>\<open>start\<close> is sent and the
  frames after it are listened to.\<close>

lemma subscribe_skips_first_frame:
  assumes "connect (ws_endpoint self) = Inr (response # messages, cl)"
  shows "subscribe loads connect self subscription_query variables =
         ([connection_init, start subscription_query variables],
          fst (listen loads cl messages), snd (listen loads cl messages))"
  using assms by (simp add: subscribe_def split: prod.split)

text \<open>With the acknowledgement as the first frame the session becomes active.\<close>

lemma ack_first_frame_accepted:
  "subscribe (loads_of protocol_docs)
     (server [frame connection_ack, frame (data_message (book_added 1))] ClosesOK)
     ws_client ''subscription { bookAdded { id } }'' JNull =
   ([connection_init, start ''subscription { bookAdded { id } }'' JNull],
    [book_added 1], Finished)"
  by (simp add: subscribe_def server_def listen_data loads_of_frame del: listen.simps(2))

text \<open>
  Claim C9, evaluated with a first frame that is not the acknowledgement. The source
  comments the step \<^verbatim>\<open># Wait for connection ack\<close>, yet a \<^verbatim>\<open>connection_error\<close> message in
  that place, and likewise a frame that is not JSON at all, is accepted: \<^verbatim>\<open>start\<close> is sent,
  the data that follows is yielded, and the generator finishes without an exception.
\<close>

theorem non_ack_first_frame_accepted:
  "subscribe (loads_of protocol_docs)
     (server [frame connection_error, frame (data_message (book_added 1))] ClosesOK)
     ws_client ''subscription { bookAdded { id } }'' JNull =
   ([connection_init, start ''subscription { bookAdded { id } }'' JNull],
    [book_added 1], Finished) \<and>
   subscribe (loads_of protocol_docs)
     (server [''not json'', frame (data_message (book_added 1))] ClosesOK)
     ws_client ''subscription { bookAdded { id } }'' JNull =
   ([connection_init, start ''subscription { bookAdded { id } }'' JNull],
    [book_added 1], Finished)"
  by (simp add: subscribe_def server_def listen_data loads_of_frame del: listen.simps(2))

section \<open>Typed entities: properties\<close>

text \<open>
  Claim C7 says that the envelope \<^verbatim>\<open>{"data":{"books":[{"id":1,"title":"1984"}]}}\<close> gives a
  list of one book. \<open>get_all_books\<close> reads \<^verbatim>\<open>book_data["genre"]\<close>, which this envelope
  lacks, and raises \<^verbatim>\<open>KeyError\<close>.
\<close>

theorem books_without_genre_counterexample:
  "get_all_books (always (Inr (books_envelope book_1984))) typed 0 = (Inl (KeyError ''genre''), 1)"
  by (simp add: get_all_books_def SimpleGraphQLClient_execute_def always_def books_envelope_def
      book_1984_def try_bind_def make_book_def make_author_def)

text \<open>
  Claim C7, amended. When the book of the envelope also has the fields \<^verbatim>\<open>genre\<close> and
  \<^verbatim>\<open>publishedYear\<close>, \<open>get_all_books\<close> returns a list of one book with id 1, title
  \<^verbatim>\<open>1984\<close>, that genre and year, and the author \<^verbatim>\<open>None\<close>.
\<close>

theorem books_with_required_fields:
  assumes "post n (endpoint (TypedGraphQLClient.client self)) (headers (TypedGraphQLClient.client self))
             (payload GetAllBooks JNull) =
           Inr (books_envelope (book_1984 @ [(''genre'', g), (''publishedYear'', y)]))"
  shows "get_all_books post self n = (Inr [Book (JInt 1) (JStr ''1984'') g y None], Suc n)"
  using assms
  by (simp add: get_all_books_def SimpleGraphQLClient_execute_def books_envelope_def
      book_1984_def try_bind_def make_book_def make_author_def)

theorem books_with_required_fields_witness:
  "always (Inr (books_envelope (book_1984 @ [(''genre'', JStr ''Dystopian''), (''publishedYear'', JInt 1949)])))
     0 (endpoint (TypedGraphQLClient.client typed)) (headers (TypedGraphQLClient.client typed))
     (payload GetAllBooks JNull) =
     Inr (books_envelope (book_1984 @ [(''genre'', JStr ''Dystopian''), (''publishedYear'', JInt 1949)])) \<and>
   get_all_books
     (always (Inr (books_envelope (book_1984 @ [(''genre'', JStr ''Dystopian''), (''publishedYear'', JInt 1949)]))))
     typed 0 =
   (Inr [Book (JInt 1) (JStr ''1984'') (JStr ''Dystopian'') (JInt 1949) None], 1)"
  using books_with_required_fields
    [of "always (Inr (books_envelope (book_1984 @ [(''genre'', JStr ''Dystopian''), (''publishedYear'', JInt 1949)])))"
        0 typed "JStr ''Dystopian''" "JInt 1949"]
  by (simp add: always_def)

section \<open>Caching: properties\<close>

lemma distinct_map_insort_key:
  "distinct (map f (insort_key f x xs)) = (f x \<notin> f ` set xs \<and> distinct (map f xs))"
  by (induction xs) (auto simp: set_insort_key)

lemma distinct_map_sort_key: "distinct (map f (sort_key f xs)) = distinct (map f xs)"
  by (induction xs) (simp_all add: sort_key_def distinct_map_insort_key set_sort [unfolded sort_key_def])

lemma map_sort_key_cong:
  fixes xs ys :: "('k::linorder \<times> 'v) list"
  assumes dx: "distinct (map fst xs)" and dy: "distinct (map fst ys)"
    and keys: "set (map fst xs) = set (map fst ys)"
    and vals: "\<And>kv kw. kv \<in> set xs \<Longrightarrow> kw \<in> set ys \<Longrightarrow> fst kv = fst kw \<Longrightarrow> g kv = g kw"
  shows "map g (sort_key fst xs) = map g (sort_key fst ys)"
proof -
  let ?sx = "sort_key fst xs" and ?sy = "sort_key fst ys"
  have fst_eq: "map fst ?sx = map fst ?sy"
  proof (rule sorted_distinct_set_unique)
    show "sorted (map fst ?sx)" "sorted (map fst ?sy)"
      by (rule sorted_sort_key)+
    show "distinct (map fst ?sx)" "distinct (map fst ?sy)"
      using dx dy by (simp_all add: distinct_map_sort_key)
    show "set (map fst ?sx) = set (map fst ?sy)"
      using keys by simp
  qed
  then have len: "length ?sx = length ?sy"
    by (rule map_eq_imp_length_eq)
  show ?thesis
  proof (rule nth_equalityI)
    show "length (map g ?sx) = length (map g ?sy)"
      using len by simp
  next
    fix i
    assume "i < length (map g ?sx)"
    then have i: "i < length ?sx" "i < length ?sy"
      using len by simp_all
    then have "?sx ! i \<in> set xs" "?sy ! i \<in> set ys"
      by (metis nth_mem set_sort)+
    moreover have "fst (?sx ! i) = fst (?sy ! i)"
      using fst_eq i by (metis nth_map)
    ultimately have "g (?sx ! i) = g (?sy ! i)"
      by (rule vals)
    with i show "map g ?sx ! i = map g ?sy ! i"
      by simp
  qed
qed

lemma json_dumps_sorted_order:
  "same_up_to_key_order a b \<Longrightarrow> wf_json a \<Longrightarrow> wf_json b \<Longrightarrow>
   json_dumps True a = json_dumps True b"
proof (induction a b rule: same_up_to_key_order.induct)
  case (1 xs ys)
  let ?g = "\<lambda>kv. encode_str (fst kv) @ '': '' @ json_dumps True (snd kv)"
  have "map ?g (sort_key fst xs) = map ?g (sort_key fst ys)"
  proof (rule map_sort_key_cong)
    show "distinct (map fst xs)" "distinct (map fst ys)"
      using "1.prems" by simp_all
    show "set (map fst xs) = set (map fst ys)"
      using "1.prems"(1) by simp
  next
    fix kv kw
    assume m: "kv \<in> set xs" "kw \<in> set ys" and k: "fst kv = fst kw"
    then have "json_dumps True (snd kv) = json_dumps True (snd kw)"
      using "1.IH" [OF m k] "1.prems" by simp
    with k show "?g kv = ?g kw"
      by simp
  qed
  then show ?case
    by (simp add: dict_items_def)
next
  case (2 xs ys)
  have "map (json_dumps True) xs = map (json_dumps True) ys"
  proof (rule nth_equalityI)
    show "length (map (json_dumps True) xs) = length (map (json_dumps True) ys)"
      using "2.prems"(1) by simp
  next
    fix i
    assume "i < length (map (json_dumps True) xs)"
    then have i: "i < length xs" "i < length ys"
      using "2.prems"(1) by simp_all
    then have z: "(xs ! i, ys ! i) \<in> set (zip xs ys)"
      by (metis in_set_zip fst_conv snd_conv)
    have "same_up_to_key_order (xs ! i) (ys ! i)"
      using "2.prems"(1) z by auto
    moreover have "wf_json (xs ! i)" "wf_json (ys ! i)"
      using "2.prems"(2,3) i by simp_all
    ultimately have "json_dumps True (xs ! i) = json_dumps True (ys ! i)"
      using "2.IH" [OF z] by simp
    with i show "map (json_dumps True) xs ! i = map (json_dumps True) ys ! i"
      by simp
  qed
  then show ?case
    by simp
qed simp_all

lemma truthy_same_up_to_key_order:
  "same_up_to_key_order a b \<Longrightarrow> truthy a = truthy b"
proof (induction a b rule: same_up_to_key_order.induct)
  case (1 xs ys)
  then have "set (map fst xs) = set (map fst ys)"
    by simp
  then have "(xs = []) = (ys = [])"
    by (metis map_is_Nil_conv set_empty)
  then show ?case
    by simp
next
  case (2 xs ys)
  then have "length xs = length ys"
    by simp
  then show ?case
    by auto
qed simp_all

lemma lru_cache_call_hit:
  "map_of cache key = Some v \<Longrightarrow>
   lru_cache_call m f key (cache, w) = (Inr v, (key, v) # filter (\<lambda>kv. fst kv \<noteq> key) cache, w)"
  by (simp add: lru_cache_call_def)

lemma lru_cache_call_stored:
  "lru_cache_call m f key (cache, w) = (Inr v, cache', w') \<Longrightarrow> map_of cache' key = Some v"
  by (auto simp: lru_cache_call_def split: option.splits prod.splits sum.splits)

lemma lru_cache_call_hit_same_world:
  "lru_cache_call m f key (cache, w) = (r, cache', w') \<Longrightarrow> map_of cache key \<noteq> None \<Longrightarrow> w' = w"
  by (auto simp: lru_cache_call_def split: option.splits prod.splits sum.splits)

lemma map_of_move_to_front:
  "map_of cache key = Some v \<Longrightarrow>
   map_of ((key, v) # filter (\<lambda>kv. fst kv \<noteq> key) cache) = map_of cache"
proof
  fix k
  assume h: "map_of cache key = Some v"
  have "map_of (filter (\<lambda>kv. fst kv \<noteq> key) cache) k = (if k = key then None else map_of cache k)"
    by (induction cache) auto
  with h show "map_of ((key, v) # filter (\<lambda>kv. fst kv \<noteq> key) cache) k = map_of cache k"
    by simp
qed

lemma lru_cache_call_bounded:
  assumes "lru_cache_call m f key (cache, w) = (r, cache', w')" and "length cache \<le> m" and "0 < m"
  shows "length cache' \<le> m"
proof (cases "map_of cache key")
  case (Some v)
  then have "key \<in> fst ` set cache"
    by (metis domI dom_map_of_conv_image_fst)
  then have "length (filter (\<lambda>kv. fst kv \<noteq> key) cache) < length cache"
    by (auto intro!: length_filter_less)
  with Some assms show ?thesis
    by (auto simp: lru_cache_call_def)
next
  case None
  with assms show ?thesis
    by (auto simp: lru_cache_call_def split: prod.splits sum.splits if_splits)
qed

text \<open>With the size 128 of the decorator the cache of \<open>execute\<close> stays within 128 entries,
  and a miss on a full cache drops the least recently used entry.\<close>

lemma lru_cache_call_evicts_last:
  assumes "map_of cache key = None" and "f key w = (Inr v, w')" and "length cache = m" and "0 < m"
  shows "lru_cache_call m f key (cache, w) = (Inr v, (key, v) # butlast cache, w')"
  using assms by (simp add: lru_cache_call_def)

lemma cached_execute_bounded:
  assumes "CachedGraphQLClient_execute loads post self query variables use_cache (cache, n) =
           (r, cache', n')"
    and "length cache \<le> 128"
  shows "length cache' \<le> 128"
proof (cases use_cache)
  case False
  with assms show ?thesis
    by (auto simp: CachedGraphQLClient_execute_def split: prod.splits)
next
  case True
  let ?vj = "json_dumps True (if truthy variables then variables else JObj [])"
  obtain rj where "lru_execute_cached loads post self query ?vj (cache, n) = (rj, cache', n')"
    using assms(1) True
    by (auto simp: CachedGraphQLClient_execute_def split: prod.splits sum.splits)
  then show ?thesis
    using lru_cache_call_bounded [of 128 _ _ cache n rj cache' n'] assms(2)
    by (simp add: lru_execute_cached_def)
qed

text \<open>
  Claim C4. For every document and every two variables mappings that are equal up to the
  insertion order of their keys, \<open>cache_key\<close> gives the same key, whatever the digest
  function; and a cached \<open>execute\<close> does the same with either mapping from the same state,
  since the decorator's cache sees the same arguments: both use the same cache entry.
\<close>

theorem cache_key_ignores_insertion_order:
  assumes "wf_json v1" and "wf_json v2" and "same_up_to_key_order v1 v2"
  shows "cache_key md5 query v1 = cache_key md5 query v2 \<and>
         CachedGraphQLClient_execute loads post self query v1 True s =
         CachedGraphQLClient_execute loads post self query v2 True s"
proof -
  have t: "truthy v1 = truthy v2"
    using assms(3) by (rule truthy_same_up_to_key_order)
  have "json_dumps True (if truthy v1 then v1 else JObj []) =
        json_dumps True (if truthy v2 then v2 else JObj [])"
    using json_dumps_sorted_order [OF assms(3,1,2)] t by simp
  then show ?thesis
    by (simp add: cache_key_def CachedGraphQLClient_execute_def)
qed

lemma vars_ab_ba: "same_up_to_key_order vars_ab vars_ba"
  by (auto simp: vars_ab_def vars_ba_def)

theorem cache_key_ignores_insertion_order_witness:
  "wf_json vars_ab \<and> wf_json vars_ba \<and> same_up_to_key_order vars_ab vars_ba \<and>
   vars_ab \<noteq> vars_ba \<and>
   cache_key id ''{ books { id } }'' vars_ab = cache_key id ''{ books { id } }'' vars_ba \<and>
   CachedGraphQLClient_execute (loads_of cache_docs) (always (Inr data_only)) (cached 128)
     ''{ books { id } }'' vars_ab True ([], 0) =
   CachedGraphQLClient_execute (loads_of cache_docs) (always (Inr data_only)) (cached 128)
     ''{ books { id } }'' vars_ba True ([], 0)"
  using cache_key_ignores_insertion_order
    [of vars_ab vars_ba id "''{ books { id } }''" "loads_of cache_docs" "always (Inr data_only)"
        "cached 128" "([], 0)"]
    vars_ab_ba
  by (simp add: vars_ab_def vars_ba_def)

text \<open>
  Claim C5. After a cached \<open>execute\<close> of a request has returned \<open>V\<close>, a second cached
  \<open>execute\<close> of the same request, from the state the first one left, returns \<open>V\<close>, in a
  state with the same number of transport calls and the same cached entries.
\<close>

theorem cached_execute_repeats_without_transport:
  assumes "CachedGraphQLClient_execute loads post self query variables True (cache, n) =
           (Inr V, cache', n')"
  shows "\<exists>cache''. CachedGraphQLClient_execute loads post self query variables True (cache', n') =
           (Inr V, cache'', n') \<and> map_of cache'' = map_of cache'"
proof -
  let ?vj = "json_dumps True (if truthy variables then variables else JObj [])"
  let ?key = "(self, query, ?vj)"
  let ?f = "\<lambda>(self, query, variables_json). execute_cached loads post self query variables_json"
  obtain rj where first: "lru_cache_call 128 ?f ?key (cache, n) = (Inr rj, cache', n')"
    and V: "loads rj = Inr V"
    using assms
    by (auto simp: CachedGraphQLClient_execute_def lru_execute_cached_def
             split: prod.splits sum.splits)
  have stored: "map_of cache' ?key = Some rj"
    using first by (rule lru_cache_call_stored)
  let ?cache'' = "(?key, rj) # filter (\<lambda>kv. fst kv \<noteq> ?key) cache'"
  have "lru_cache_call 128 ?f ?key (cache', n') = (Inr rj, ?cache'', n')"
    using stored by (rule lru_cache_call_hit)
  then have "CachedGraphQLClient_execute loads post self query variables True (cache', n') =
             (Inr V, ?cache'', n')"
    using V by (simp add: CachedGraphQLClient_execute_def lru_execute_cached_def)
  moreover have "map_of ?cache'' = map_of cache'"
    using stored by (rule map_of_move_to_front)
  ultimately show ?thesis
    by blast
qed

lemma cache_docs_loads:
  "loads_of cache_docs ''{}'' = Inr (JObj [])"
  "loads_of cache_docs (json_dumps False data_only) = Inr data_only"
  by (simp_all add: loads_of_def cache_docs_def vars_ab_def data_only_def encode_str_def
      escape_char_def int_str_def digit_char_def dict_items_def)

lemma first_cached_call:
  "CachedGraphQLClient_execute (loads_of cache_docs) (always (Inr data_only)) (cached 128)
     ''{ books { id } }'' JNull True ([], 0) =
   (Inr data_only, [((cached 128, ''{ books { id } }'', ''{}''), json_dumps False data_only)], 1)"
  by (simp add: CachedGraphQLClient_execute_def lru_execute_cached_def lru_cache_call_def
      execute_cached_def SimpleGraphQLClient_execute_def always_def cache_docs_loads dict_items_def)

theorem cached_execute_repeats_without_transport_witness:
  "CachedGraphQLClient_execute (loads_of cache_docs) (always (Inr data_only)) (cached 128)
     ''{ books { id } }'' JNull True ([], 0) =
   (Inr data_only, [((cached 128, ''{ books { id } }'', ''{}''), json_dumps False data_only)], 1) \<and>
   (\<exists>cache''. CachedGraphQLClient_execute (loads_of cache_docs) (always (Inr data_only)) (cached 128)
     ''{ books { id } }'' JNull True
     ([((cached 128, ''{ books { id } }'', ''{}''), json_dumps False data_only)], 1) =
     (Inr data_only, cache'', 1) \<and>
     map_of cache'' =
     map_of [((cached 128, ''{ books { id } }'', ''{}''), json_dumps False data_only)])"
  using cached_execute_repeats_without_transport
    [of "loads_of cache_docs" "always (Inr data_only)" "cached 128" "''{ books { id } }''" JNull
        "[]" 0 data_only
        "[((cached 128, ''{ books { id } }'', ''{}''), json_dumps False data_only)]" 1]
    first_cached_call
  by simp

text \<open>
  Claim C6, evaluated for a client constructed with \<^verbatim>\<open>cache_size=1\<close>: after two distinct
  queries the cache holds both, and the first query is answered again without a third
  transport call. The decorator's size is the literal 128, not \<^verbatim>\<open>self.cache_size\<close>.
\<close>

theorem cache_size_is_ignored:
  "cache_size (cached 1) = 1 \<and>
   (case execute_each (loads_of cache_docs) (always (Inr data_only)) (cached 1)
           [''{ books { id } }'', ''{ authors { id } }'', ''{ books { id } }''] ([], 0) of
      (results, cache, calls) \<Rightarrow>
        results = [Inr data_only, Inr data_only, Inr data_only] \<and>
        map (\<lambda>kv. fst (snd (fst kv))) cache = [''{ books { id } }'', ''{ authors { id } }''] \<and>
        calls = 2)"
  by (simp add: cached_def CachedGraphQLClient_execute_def lru_execute_cached_def lru_cache_call_def
      execute_cached_def SimpleGraphQLClient_execute_def always_def cache_docs_loads dict_items_def
      Let_def)

end
